theory Spec2Isabelle
  imports Complex_Main
begin

section \<open>JavaScript primitives used by MainContainer.js\<close>

text \<open>
  The player is a React component; its handlers are pure updates of the component state,
  so each handler is a function from the state of the current render to the next state.
  JavaScript numbers that hold indices are modelled as \<open>int\<close>, positions in seconds as
  \<open>real\<close>, strings as byte lists.
\<close>

text \<open>\<open>a % n\<close>: the remainder takes the sign of the dividend.\<close>

definition js_rem :: "int \<Rightarrow> int \<Rightarrow> int" where
  "js_rem a n = sgn a * (\<bar>a\<bar> mod \<bar>n\<bar>)"

text \<open>\<open>xs[k]\<close>: reading outside the array gives \<open>undefined\<close>, here \<open>None\<close>.\<close>

definition js_index :: "'a list \<Rightarrow> int \<Rightarrow> 'a option" where
  "js_index xs k = (if 0 \<le> k \<and> k < int (length xs) then Some (xs ! nat k) else None)"

text \<open>
  \<open>s.toLowerCase()\<close> on the ASCII letters; every other byte is kept. No character outside
  ASCII lowers to one of the letters the code compares with.
\<close>

definition toLowerChar :: "char \<Rightarrow> char" where
  "toLowerChar c =
     (let n = (of_char c :: nat) in if 65 \<le> n \<and> n \<le> 90 then char_of (n + 32) else c)"

definition toLowerCase :: "string \<Rightarrow> string" where
  "toLowerCase s = map toLowerChar s"

text \<open>\<open>s.split(c)\<close> for a one-character separator: never empty, \<open>"".split(".") = [""]\<close>.\<close>

fun js_split :: "char \<Rightarrow> string \<Rightarrow> string list" where
  "js_split c [] = [[]]"
| "js_split c (x # xs) =
     (if x = c then [] # js_split c xs
      else (case js_split c xs of
              [] \<Rightarrow> [[x]]
            | w # ws \<Rightarrow> (x # w) # ws))"

text \<open>\<open>s.endsWith(suf)\<close>.\<close>

definition endsWith :: "string \<Rightarrow> string \<Rightarrow> bool" where
  "endsWith s suf =
     (length suf \<le> length s \<and> drop (length s - length suf) s = suf)"

section \<open>Tracks\<close>

text \<open>
  A track object of the final revision. \<open>duration\<close> is \<open>null\<close> (\<open>None\<close>) for an upload until the
  metadata is read; the built-in tracks have no \<open>isUploaded\<close> property, which reads as false.
\<close>

record track =
  title :: string
  artist :: string
  album :: string
  src :: string
  duration :: "nat option"
  isUploaded :: bool

definition TESTED_MP3 :: string where
  "TESTED_MP3 = ''https://www.soundhelix.com/examples/mp3/SoundHelix-Song-1.mp3''"

definition defaultTracks :: "track list" where
  "defaultTracks =
    [\<lparr>title = ''Sample Track (Add your own music!)'', artist = ''MelodyMaster'',
      album = ''Demo Album'', src = TESTED_MP3, duration = Some 347, isUploaded = False\<rparr>,
     \<lparr>title = ''Time Machine Groove'', artist = ''RetroWave'', album = ''Neon Nights'',
      src = ''https://cdn.pixabay.com/audio/2022/10/16/audio_12c716b9ba.mp3'',
      duration = Some 201, isUploaded = False\<rparr>,
     \<lparr>title = ''Dashboard Dreams'', artist = ''Synth Escape'', album = ''Cruisin'' @ [CHR 0x27],
      src = ''https://cdn.pixabay.com/audio/2023/05/30/audio_1418e61dbb.mp3'',
      duration = Some 248, isUploaded = False\<rparr>,
     \<lparr>title = ''FM Memories'', artist = ''Night Drive'', album = ''Afterglow'',
      src = ''https://cdn.pixabay.com/audio/2023/04/24/audio_146a14c1ce.mp3'',
      duration = Some 176, isUploaded = False\<rparr>]"

definition fallbackTrack :: track where
  "fallbackTrack =
     \<lparr>title = ''Sample Track (Add your own music!)'', artist = ''MelodyMaster'',
      album = ''Demo Album'', src = TESTED_MP3, duration = Some 347, isUploaded = False\<rparr>"

section \<open>Track source validator\<close>

text \<open>
  \<open>canPlayAudioSrc(src)\<close>. The runtime's \<open>HTMLMediaElement.canPlayType\<close> is a parameter: it
  answers \<open>""\<close>, \<open>"maybe"\<close> or \<open>"probably"\<close>, and \<open>!!\<close> turns the answer into "is not empty".
  An absent source (\<open>undefined\<close>, \<open>null\<close>) is \<open>None\<close>.
\<close>

type_synonym runtime = "string \<Rightarrow> string"

definition truthy :: "string \<Rightarrow> bool" where
  "truthy s = (s \<noteq> [])"

definition canPlayAudioSrc :: "runtime \<Rightarrow> string option \<Rightarrow> bool" where
  "canPlayAudioSrc canPlayType src_opt =
     (case src_opt of
        None \<Rightarrow> False
      | Some s \<Rightarrow>
          if \<not> truthy s then False
          else
            let ext = toLowerCase (last (js_split CHR ''.'' s)) in
            if ext = ''mp3'' then truthy (canPlayType ''audio/mpeg'')
            else if ext = ''wav'' then truthy (canPlayType ''audio/wav'')
            else if ext = ''ogg'' then truthy (canPlayType ''audio/ogg'')
            else True)"

section \<open>Playback state of the final revision\<close>

record playback =
  currentIdx :: int
  playing :: bool
  progress :: real
  audioError :: string
  audioCurrentTime :: real

record container = playback +
  fileError :: string
  userTracks :: "track list"
  eqBands :: "int list"
  showEqPopup :: bool
  eqNodes :: "int list option"
  fileInputValue :: string

definition allTracks :: "container \<Rightarrow> track list" where
  "allTracks s = defaultTracks @ userTracks s"

definition availableTracks :: "runtime \<Rightarrow> container \<Rightarrow> track list" where
  "availableTracks rt s = filter (\<lambda>t. canPlayAudioSrc rt (Some (src t))) (allTracks s)"

definition hasValidTracks :: "runtime \<Rightarrow> container \<Rightarrow> bool" where
  "hasValidTracks rt s = (length (availableTracks rt s) > 0)"

definition currentTrack :: "runtime \<Rightarrow> container \<Rightarrow> track option" where
  "currentTrack rt s =
     (if hasValidTracks rt s
      then js_index (availableTracks rt s)
             (js_rem (currentIdx s) (int (length (availableTracks rt s))))
      else Some fallbackTrack)"

definition getNextTrackIdx :: "int \<Rightarrow> int \<Rightarrow> int \<Rightarrow> int" where
  "getNextTrackIdx idx dir len =
     (let next = idx + dir in
      if next < 0 then len - 1
      else if next \<ge> len then 0
      else next)"

definition handleTrackClick :: "int \<Rightarrow> container \<Rightarrow> container" where
  "handleTrackClick idx s = s\<lparr>currentIdx := idx, progress := 0, playing := True\<rparr>"

definition handlePlayPause :: "container \<Rightarrow> container" where
  "handlePlayPause s = s\<lparr>playing := \<not> playing s\<rparr>"

definition handleNext :: "runtime \<Rightarrow> container \<Rightarrow> container" where
  "handleNext rt s =
     s\<lparr>progress := 0,
       currentIdx := getNextTrackIdx (currentIdx s) 1 (int (length (availableTracks rt s))),
       playing := True\<rparr>"

definition handlePrev :: "runtime \<Rightarrow> container \<Rightarrow> container" where
  "handlePrev rt s =
     s\<lparr>progress := 0,
       currentIdx := getNextTrackIdx (currentIdx s) (- 1) (int (length (availableTracks rt s))),
       playing := True\<rparr>"

text \<open>The seek bar: the position goes to the state and to the audio element.\<close>

definition handleBarChange :: "real \<Rightarrow> container \<Rightarrow> container" where
  "handleBarChange val s = s\<lparr>progress := val, audioCurrentTime := val\<rparr>"

definition handleTrackEnd :: "runtime \<Rightarrow> container \<Rightarrow> container" where
  "handleTrackEnd rt s = handleNext rt s"

section \<open>Upload intake of the final revision\<close>

text \<open>
  A selected file, with the URL that \<open>URL.createObjectURL\<close> answers for it in this call.
\<close>

record upload_file =
  name :: string
  type :: string
  objectURL :: string

definition NoValidFiles :: string where
  "NoValidFiles = ''Please upload only .mp3 audio files.''"

definition PartialRejection :: string where
  "PartialRejection = ''Some selected files were not .mp3 and were ignored.''"

definition mp3Files :: "upload_file list \<Rightarrow> upload_file list" where
  "mp3Files files =
     filter (\<lambda>f. type f = ''audio/mpeg''
                \<or> (truthy (name f) \<and> endsWith (toLowerCase (name f)) ''.mp3'')) files"

text \<open>\<open>name.replace(/\.mp3$/i, "")\<close>.\<close>

definition replace_mp3_suffix :: "string \<Rightarrow> string" where
  "replace_mp3_suffix n =
     (if endsWith (toLowerCase n) ''.mp3'' then take (length n - 4) n else n)"

definition newTracks :: "upload_file list \<Rightarrow> track list" where
  "newTracks files =
     map (\<lambda>file. \<lparr>title = replace_mp3_suffix (name file), artist = ''You'',
                  album = ''Uploaded'', src = objectURL file, duration = None,
                  isUploaded = True\<rparr>)
         (mp3Files files)"

text \<open>The updater given to \<open>setUserTracks\<close>.\<close>

definition appendUnique :: "track list \<Rightarrow> track list \<Rightarrow> track list" where
  "appendUnique prev new =
     (let prevSources = map src prev;
          uniqueNew = filter (\<lambda>t. src t \<notin> set prevSources) new
      in prev @ uniqueNew)"

definition handleFileChange :: "runtime \<Rightarrow> upload_file list \<Rightarrow> container \<Rightarrow> container" where
  "handleFileChange rt files s =
     (let s1 = s\<lparr>fileError := []\<rparr> in
      if length files = 0 then s1
      else
        let mp3 = mp3Files files;
            rejected = (length files \<noteq> length mp3)
        in
        if length mp3 = 0
        then s1\<lparr>fileError := NoValidFiles, fileInputValue := []\<rparr>
        else
          let s2 = (if rejected then s1\<lparr>fileError := PartialRejection\<rparr> else s1) in
          s2\<lparr>userTracks := appendUnique (userTracks s) (newTracks files),
             currentIdx := int (length (availableTracks rt s))
                           + int (length (newTracks files)) - 1\<rparr>)"

section \<open>Transport sync of the final revision\<close>

text \<open>\<open>timeupdate\<close>: the element reports its position \<open>t\<close>.\<close>

definition update :: "real \<Rightarrow> container \<Rightarrow> container" where
  "update t s = s\<lparr>audioCurrentTime := t, progress := t\<rparr>"

definition handleAudioError :: "container \<Rightarrow> container" where
  "handleAudioError s =
     s\<lparr>audioError := ''Audio format/source not supported or not reachable. Try another track or check connection.'',
       playing := False\<rparr>"

text \<open>The promise of \<open>play()\<close> is rejected.\<close>

definition playRejected :: "container \<Rightarrow> container" where
  "playRejected s = s\<lparr>playing := False\<rparr>"

text \<open>
  \<open>loadedmetadata\<close>: \<open>audio.duration\<close> is \<open>Some d\<close> when it is a finite number, which is
  never negative; \<open>Math.round(d)\<close> is \<open>\<lfloor>d + 1/2\<rfloor>\<close>. Reading \<open>currentTrack.src\<close> of an undefined
  track throws, and the state stays as it is.
\<close>

definition setFakeDurationIfMissing :: "runtime \<Rightarrow> real option \<Rightarrow> container \<Rightarrow> container" where
  "setFakeDurationIfMissing rt audio_duration s =
     (case currentTrack rt s of
        None \<Rightarrow> s
      | Some ct \<Rightarrow>
          (case audio_duration of
             None \<Rightarrow> s
           | Some d \<Rightarrow>
               if length (userTracks s) > 0 \<and> truthy (src ct) \<and> duration ct = None
               then s\<lparr>userTracks :=
                        map (\<lambda>ut. if src ut = src ct \<and> duration ut = None
                                  then ut\<lparr>duration := Some (nat \<lfloor>d + 1 / 2\<rfloor>)\<rparr>
                                  else ut)
                            (userTracks s)\<rparr>
               else s))"

section \<open>Equalizer of the final revision\<close>

text \<open>
  \<open>webAudio.eqNodes\<close> is the list of the three filter nodes, here the value of each node's
  \<open>gain\<close> parameter, or \<open>None\<close> while the graph is not built. The sliders are made by
  \<open>bands.map\<close>, so \<open>idx\<close> is an index of \<open>eqBands\<close>; \<open>nv\<close> is \<open>+e.target.value\<close>.
\<close>

definition slider_onChange :: "nat \<Rightarrow> int \<Rightarrow> container \<Rightarrow> container" where
  "slider_onChange idx nv s =
     s\<lparr>eqBands := (eqBands s)[idx := nv],
       eqNodes :=
         (case eqNodes s of
            None \<Rightarrow> None
          | Some nodes \<Rightarrow>
              if idx < length nodes
              then (if idx = 1 then Some (nodes[idx := nv]) else Some (nodes[idx := nv]))
              else Some nodes)\<rparr>"

text \<open>
  The effect on \<open>[eqBands, webAudio.eqNodes]\<close>. The band array has three elements in every
  reachable state; the model leaves the state as it is for a shorter one, where the code
  would assign \<open>undefined\<close> to a gain.
\<close>

definition eqBands_effect :: "container \<Rightarrow> container" where
  "eqBands_effect s =
     (case eqNodes s of
        None \<Rightarrow> s
      | Some nodes \<Rightarrow>
          if length nodes = 3 \<and> 3 \<le> length (eqBands s)
          then s\<lparr>eqNodes := Some [eqBands s ! 0, eqBands s ! 1, eqBands s ! 2]\<rparr>
          else s)"

text \<open>The first run of the setup effect builds the three filters with the gains of the bands.\<close>

definition setup_effect :: "container \<Rightarrow> container" where
  "setup_effect s =
     (case eqNodes s of
        None \<Rightarrow>
          if 3 \<le> length (eqBands s)
          then s\<lparr>eqNodes := Some [eqBands s ! 0, eqBands s ! 1, eqBands s ! 2]\<rparr>
          else s
      | Some nodes \<Rightarrow> s)"

definition handleShowEq :: "container \<Rightarrow> container" where
  "handleShowEq s = s\<lparr>showEqPopup := True\<rparr>"

definition handleHideEq :: "container \<Rightarrow> container" where
  "handleHideEq s = s\<lparr>showEqPopup := False\<rparr>"

section \<open>The component as a transition system\<close>

definition initialState :: container where
  "initialState =
     \<lparr>currentIdx = 0, playing = False, progress = 0, audioError = [], audioCurrentTime = 0,
      fileError = [], userTracks = [], eqBands = [0, 0, 0], showEqPopup = False,
      eqNodes = None, fileInputValue = []\<rparr>"

datatype event =
    TrackClick nat
  | PlayPause
  | Next
  | Prev
  | BarChange real
  | TrackEnd
  | FileChange "upload_file list"
  | TimeUpdate real
  | AudioError
  | PlayRejected
  | LoadedMetadata "real option"
  | SliderChange nat int
  | EqBandsEffect
  | SetupEffect
  | ShowEq
  | HideEq

fun fire :: "runtime \<Rightarrow> event \<Rightarrow> container \<Rightarrow> container" where
  "fire rt (TrackClick idx) s = handleTrackClick (int idx) s"
| "fire rt PlayPause s = handlePlayPause s"
| "fire rt Next s = handleNext rt s"
| "fire rt Prev s = handlePrev rt s"
| "fire rt (BarChange val) s = handleBarChange val s"
| "fire rt TrackEnd s = handleTrackEnd rt s"
| "fire rt (FileChange files) s = handleFileChange rt files s"
| "fire rt (TimeUpdate t) s = update t s"
| "fire rt AudioError s = handleAudioError s"
| "fire rt PlayRejected s = playRejected s"
| "fire rt (LoadedMetadata d) s = setFakeDurationIfMissing rt d s"
| "fire rt (SliderChange idx nv) s = slider_onChange idx nv s"
| "fire rt EqBandsEffect s = eqBands_effect s"
| "fire rt SetupEffect s = setup_effect s"
| "fire rt ShowEq s = handleShowEq s"
| "fire rt HideEq s = handleHideEq s"

text \<open>
  The track list shows the playable set, or the fallback track alone when the set is
  empty, so a click carries an index of that list. A slider is a range input with
  \<open>min = -12\<close>, \<open>max = 12\<close> and \<open>step = 1\<close>, one for each band, so it delivers an index of
  \<open>eqBands\<close> and a value in that interval. Every other event may come in any state.
\<close>

fun enabled :: "runtime \<Rightarrow> event \<Rightarrow> container \<Rightarrow> bool" where
  "enabled rt (TrackClick idx) s =
     (idx < (if hasValidTracks rt s then length (availableTracks rt s) else 1))"
| "enabled rt (SliderChange idx nv) s = (idx < length (eqBands s) \<and> - 12 \<le> nv \<and> nv \<le> 12)"
| "enabled rt e s = True"

inductive reachable :: "runtime \<Rightarrow> container \<Rightarrow> bool" for rt :: runtime where
  init: "reachable rt initialState"
| step: "reachable rt s \<Longrightarrow> enabled rt e s \<Longrightarrow> reachable rt (fire rt e s)"

definition supportsAll :: runtime where
  "supportsAll mime = ''maybe''"

definition supportsNone :: runtime where
  "supportsNone mime = []"

section \<open>The revision with shuffle and repeat\<close>

text \<open>
  The earlier revision of the component has the shuffle and repeat flags and a fixed
  table \<open>audioTracks\<close>, which its comments ask the developer to edit; the handlers take
  the table as a parameter and use its length only.
\<close>

record art_track = track +
  art :: string

definition audioTracks :: "art_track list" where
  "audioTracks =
    [\<lparr>title = ''Time Machine Groove'', artist = ''RetroWave'', album = ''Neon Nights'',
      src = ''https://cdn.pixabay.com/audio/2022/10/16/audio_12c716b9ba.mp3'',
      duration = Some 201, isUploaded = False, art = ''https://i.imgur.com/GVlQINJ.png''\<rparr>,
     \<lparr>title = ''Dashboard Dreams'', artist = ''Synth Escape'', album = ''Cruisin'' @ [CHR 0x27],
      src = ''https://cdn.pixabay.com/audio/2023/05/30/audio_1418e61dbb.mp3'',
      duration = Some 248, isUploaded = False, art = ''https://i.imgur.com/ZA7AKWD.png''\<rparr>,
     \<lparr>title = ''FM Memories'', artist = ''Night Drive'', album = ''Afterglow'',
      src = ''https://cdn.pixabay.com/audio/2023/04/24/audio_146a14c1ce.mp3'',
      duration = Some 176, isUploaded = False, art = ''https://i.imgur.com/9e3ldwV.png''\<rparr>]"

record stereo = playback +
  shuffle :: bool
  repeat :: bool
  showEQ :: bool

text \<open>
  \<open>getRandomIdx(excl)\<close>. The values of \<open>Math.random()\<close>, each in \<open>[0, 1)\<close>, are given as a
  list; the do-while loop takes one per round, and \<open>None\<close> says that the loop has not
  ended with the values it was given.
\<close>

fun random_loop :: "nat \<Rightarrow> real list \<Rightarrow> int \<Rightarrow> int option" where
  "random_loop n [] excl = None"
| "random_loop n (r # rs) excl =
     (let next = \<lfloor>r * real n\<rfloor> in
      if next = excl then random_loop n rs excl else Some next)"

definition getRandomIdx :: "'a list \<Rightarrow> real list \<Rightarrow> int \<Rightarrow> int option" where
  "getRandomIdx tracks randoms excl =
     (if length tracks < 2 then Some excl
      else random_loop (length tracks) randoms excl)"

definition handleNext_shuffle :: "'a list \<Rightarrow> real list \<Rightarrow> stereo \<Rightarrow> stereo option" where
  "handleNext_shuffle tracks randoms s =
     (let s1 = s\<lparr>progress := 0\<rparr> in
      if shuffle s
      then (case getRandomIdx tracks randoms (currentIdx s) of
              None \<Rightarrow> None
            | Some i \<Rightarrow> Some (s1\<lparr>currentIdx := i, playing := True\<rparr>))
      else Some (s1\<lparr>currentIdx := getNextTrackIdx (currentIdx s) 1 (int (length tracks)),
                    playing := True\<rparr>))"

definition handlePrev_shuffle :: "'a list \<Rightarrow> real list \<Rightarrow> stereo \<Rightarrow> stereo option" where
  "handlePrev_shuffle tracks randoms s =
     (let s1 = s\<lparr>progress := 0\<rparr> in
      if shuffle s
      then (case getRandomIdx tracks randoms (currentIdx s) of
              None \<Rightarrow> None
            | Some i \<Rightarrow> Some (s1\<lparr>currentIdx := i, playing := True\<rparr>))
      else Some (s1\<lparr>currentIdx := getNextTrackIdx (currentIdx s) (- 1) (int (length tracks)),
                    playing := True\<rparr>))"

text \<open>\<open>handleTrackEnd\<close> of this revision, the listener of the element's \<open>ended\<close> event.\<close>

definition handleTrackEnd_repeat :: "'a list \<Rightarrow> real list \<Rightarrow> stereo \<Rightarrow> stereo option" where
  "handleTrackEnd_repeat tracks randoms s =
     (if repeat s
      then Some (s\<lparr>progress := 0, audioCurrentTime := 0, playing := True\<rparr>)
      else handleNext_shuffle tracks randoms s)"


section \<open>The extension of a source, in the words of the specification\<close>

text \<open>The text after the last dot of \<open>s\<close>, the whole of \<open>s\<close> when it has no dot.\<close>

definition text_after_last_dot :: "string \<Rightarrow> string" where
  "text_after_last_dot s = rev (takeWhile (\<lambda>c. c \<noteq> CHR ''.'') (rev s))"

section \<open>Example states\<close>

definition stereo_example :: stereo where
  "stereo_example =
     \<lparr>currentIdx = 1, playing = True, progress = 201, audioError = [], audioCurrentTime = 201,
      shuffle = False, repeat = True, showEQ = False\<rparr>"

definition supportsMpegOnly :: runtime where
  "supportsMpegOnly mime = (if mime = ''audio/mpeg'' then ''probably'' else [])"




section \<open>Properties of states\<close>

text \<open>Every filter node has its gain in \<open>[-12, 12]\<close>.\<close>

definition gains_in_range :: "container \<Rightarrow> bool" where
  "gains_in_range s =
     (case eqNodes s of
        None \<Rightarrow> True
      | Some nodes \<Rightarrow> list_all (\<lambda>g. - 12 \<le> g \<and> g \<le> 12) nodes)"

text \<open>The index is not negative whenever the playable set is not empty.\<close>

definition index_ok :: "runtime \<Rightarrow> container \<Rightarrow> bool" where
  "index_ok rt s = (availableTracks rt s \<noteq> [] \<longrightarrow> 0 \<le> currentIdx s)"

text \<open>There are three bands, each in \<open>[-12, 12]\<close>.\<close>

definition bands_in_range :: "container \<Rightarrow> bool" where
  "bands_in_range s = (length (eqBands s) = 3 \<and> list_all (\<lambda>g. - 12 \<le> g \<and> g \<le> 12) (eqBands s))"

section \<open>Upload intake in the words of the specification\<close>




definition mixed_files :: "upload_file list" where
  "mixed_files = [\<lparr>name = ''Song.MP3'', type = [], objectURL = ''blob:3''\<rparr>,
                  \<lparr>name = ''notes.txt'', type = ''text/plain'', objectURL = ''blob:4''\<rparr>,
                  \<lparr>name = ''todo.txt'', type = ''text/plain'', objectURL = ''blob:5''\<rparr>]"



section \<open>Transport: next and previous\<close>
lemma available_initial_supportsAll:
  "availableTracks supportsAll initialState = defaultTracks"
  by (simp add: availableTracks_def allTracks_def initialState_def defaultTracks_def
      canPlayAudioSrc_def truthy_def supportsAll_def TESTED_MP3_def toLowerCase_def
      toLowerChar_def)

lemma length_available_initial:
  "length (availableTracks supportsAll initialState) = 4"
  by (simp add: available_initial_supportsAll defaultTracks_def)

lemma availableTracks_currentIdx_update:
  "availableTracks rt (s\<lparr>currentIdx := i\<rparr>) = availableTracks rt s"
  by (simp add: availableTracks_def allTracks_def)


lemma availableTracks_handleNext:
  "availableTracks rt (handleNext rt s) = availableTracks rt s"
  by (simp add: availableTracks_def allTracks_def handleNext_def)



text \<open>
  C2. Without shuffle (the final revision has no shuffle at all), with a playable set of
  size \<open>n > 0\<close> and the index \<open>i\<close> in \<open>[0, n)\<close>: next goes to \<open>i + 1\<close>, from \<open>n - 1\<close> to \<open>0\<close>;
  previous goes to \<open>i - 1\<close>, from \<open>0\<close> to \<open>n - 1\<close>; both set the position to 0 and the play
  intent to true.
\<close>

theorem next_previous_wraparound:
  assumes "n = int (length (availableTracks rt s))" and "0 < n"
    and "0 \<le> currentIdx s" and "currentIdx s < n"
  shows "currentIdx (handleNext rt s) = (if currentIdx s = n - 1 then 0 else currentIdx s + 1)
    \<and> currentIdx (handlePrev rt s) = (if currentIdx s = 0 then n - 1 else currentIdx s - 1)
    \<and> progress (handleNext rt s) = 0 \<and> playing (handleNext rt s)
    \<and> progress (handlePrev rt s) = 0 \<and> playing (handlePrev rt s)"
  using assms by (auto simp add: handleNext_def handlePrev_def getNextTrackIdx_def)

theorem next_previous_wraparound_witness:
  "currentIdx (handleNext supportsAll (initialState\<lparr>currentIdx := 3\<rparr>)) = 0
   \<and> currentIdx (handlePrev supportsAll (initialState\<lparr>currentIdx := 3\<rparr>)) = 2
   \<and> progress (handleNext supportsAll (initialState\<lparr>currentIdx := 3\<rparr>)) = 0
   \<and> playing (handleNext supportsAll (initialState\<lparr>currentIdx := 3\<rparr>))"
proof -
  let ?s = "initialState\<lparr>currentIdx := 3\<rparr>"
  have n: "4 = int (length (availableTracks supportsAll ?s))"
    by (simp add: availableTracks_currentIdx_update length_available_initial)
  have i: "currentIdx ?s = 3" by simp
  show ?thesis
    using next_previous_wraparound [OF n, unfolded i] by simp
qed



section \<open>End of track with repeat\<close>

text \<open>
  C7. In the revision that has the repeat flag: with repeat on, the end of the track sets
  the position to 0 (the state's and the element's), sets the play intent to true and
  keeps the index; it returns for every table and every list of random values.
\<close>

theorem repeat_track_end:
  assumes "repeat s"
  shows "\<exists>s'. handleTrackEnd_repeat tracks randoms s = Some s'
      \<and> progress s' = 0 \<and> audioCurrentTime s' = 0 \<and> playing s'
      \<and> currentIdx s' = currentIdx s \<and> shuffle s' = shuffle s \<and> repeat s'"
  using assms by (simp add: handleTrackEnd_repeat_def)

theorem repeat_track_end_witness:
  "repeat stereo_example \<and> (\<exists>s'. handleTrackEnd_repeat audioTracks [] stereo_example = Some s'
      \<and> progress s' = 0 \<and> playing s' \<and> currentIdx s' = 1)"
  using repeat_track_end [of stereo_example audioTracks "[]"]
  by (auto simp add: stereo_example_def)

section \<open>Next with shuffle on a single track\<close>

lemmas validator_simps = canPlayAudioSrc_def truthy_def toLowerCase_def toLowerChar_def




section \<open>Equalizer gains\<close>




lemma gains_in_range_slider:
  assumes "gains_in_range s" and "- 12 \<le> nv" and "nv \<le> 12"
  shows "gains_in_range (slider_onChange idx nv s)"
  using assms
  by (auto simp add: gains_in_range_def slider_onChange_def list_all_iff split: option.splits
      dest: set_update_subset_insert [THEN subsetD])

section \<open>The validator and the extension of a source\<close>

lemma js_split_not_Nil: "js_split c s \<noteq> []"
  by (induction s) (auto split: list.splits)

lemma js_split_no_separator: "c \<notin> set s \<Longrightarrow> js_split c s = [s]"
  by (induction s) auto

lemma last_js_split_Cons:
  "last (js_split c (x # xs)) =
     (if c \<in> set xs then last (js_split c xs) else if x = c then xs else x # xs)"
proof (cases "c \<in> set xs")
  case False
  then show ?thesis by (simp add: js_split_no_separator)
next
  case True
  have "length (js_split c xs) \<ge> 2" using True
  proof (induction xs)
    case Nil then show ?case by simp
  next
    case (Cons y ys)
    then show ?case
      using js_split_not_Nil [of c ys]
      by (cases "js_split c ys") (auto split: list.splits)
  qed
  then obtain w v ws where "js_split c xs = w # v # ws"
    by (cases "js_split c xs"; cases "tl (js_split c xs)") auto
  with True show ?thesis by simp
qed

lemma takeWhile_snoc_all:
  "\<forall>y \<in> set ys. P y \<Longrightarrow> takeWhile P (ys @ [x]) = (if P x then ys @ [x] else ys)"
  by (induction ys) auto

lemma text_after_last_dot_Cons:
  "text_after_last_dot (x # xs) =
     (if CHR ''.'' \<in> set xs then text_after_last_dot xs
      else if x = CHR ''.'' then xs else x # xs)"
proof (cases "CHR ''.'' \<in> set xs")
  case True
  then have "CHR ''.'' \<in> set (rev xs)" by simp
  then have "takeWhile (\<lambda>c. c \<noteq> CHR ''.'') (rev xs @ [x]) = takeWhile (\<lambda>c. c \<noteq> CHR ''.'') (rev xs)"
    by (rule takeWhile_append1) simp
  with True show ?thesis
    by (simp add: text_after_last_dot_def)
next
  case False
  then have "\<forall>y \<in> set (rev xs). y \<noteq> CHR ''.''" by auto
  then have "takeWhile (\<lambda>c. c \<noteq> CHR ''.'') (rev xs @ [x])
               = (if x \<noteq> CHR ''.'' then rev xs @ [x] else rev xs)"
    by (rule takeWhile_snoc_all)
  then have "text_after_last_dot (x # xs) = (if x = CHR ''.'' then xs else x # xs)"
    unfolding text_after_last_dot_def rev.simps by simp
  with False show ?thesis by simp
qed

text \<open>\<open>src.split(".").pop()\<close> is the text after the last dot.\<close>

lemma last_js_split: "last (js_split CHR ''.'' s) = text_after_last_dot s"
proof (induction s)
  case Nil
  show ?case by (simp add: text_after_last_dot_def)
next
  case (Cons x xs)
  then show ?case
    by (simp only: last_js_split_Cons text_after_last_dot_Cons)
qed

text \<open>
  C9. The validator answers false for an absent and for an empty source. For a source
  that is not empty, with \<open>ext\<close> the lower-cased text after its last dot: the answer is the
  runtime's support of audio/mpeg, audio/wav or audio/ogg when \<open>ext\<close> is mp3, wav or ogg,
  and true for every other \<open>ext\<close>.
\<close>

theorem canPlayAudioSrc_verdict:
  "canPlayAudioSrc rt None = False
   \<and> canPlayAudioSrc rt (Some []) = False
   \<and> (s \<noteq> [] \<longrightarrow>
        canPlayAudioSrc rt (Some s) =
          (let ext = toLowerCase (text_after_last_dot s) in
           if ext = ''mp3'' then rt ''audio/mpeg'' \<noteq> []
           else if ext = ''wav'' then rt ''audio/wav'' \<noteq> []
           else if ext = ''ogg'' then rt ''audio/ogg'' \<noteq> []
           else True))"
  by (simp add: canPlayAudioSrc_def truthy_def last_js_split Let_def)

theorem canPlayAudioSrc_verdict_witness:
  "canPlayAudioSrc supportsMpegOnly (Some ''a.b.MP3'')
   \<and> \<not> canPlayAudioSrc supportsMpegOnly (Some ''song.Ogg'')
   \<and> canPlayAudioSrc supportsMpegOnly (Some ''blob:http://localhost:3000/0a1b'')"
proof -
  have e1: "toLowerCase (text_after_last_dot ''a.b.MP3'') = ''mp3''"
    by code_simp
  have e2: "toLowerCase (text_after_last_dot ''song.Ogg'') = ''ogg''"
    by code_simp
  have e3: "toLowerCase (text_after_last_dot ''blob:http://localhost:3000/0a1b'')
              = ''blob:http://localhost:3000/0a1b''"
    by code_simp
  show ?thesis
    using canPlayAudioSrc_verdict [of supportsMpegOnly "''a.b.MP3''"]
      canPlayAudioSrc_verdict [of supportsMpegOnly "''song.Ogg''"]
      canPlayAudioSrc_verdict [of supportsMpegOnly "''blob:http://localhost:3000/0a1b''"]
    unfolding e1 e2 e3 by (simp add: supportsMpegOnly_def)
qed

section \<open>Upload intake\<close>


lemma appendUnique_eq:
  "appendUnique prev new = prev @ filter (\<lambda>t. src t \<notin> src ` set prev) new"
  by (simp add: appendUnique_def)

lemma length_newTracks: "length (newTracks files) = length (mp3Files files)"
  by (simp add: newTracks_def)





section \<open>Sources in the store\<close>

lemma userTracks_handleFileChange:
  "userTracks (handleFileChange rt files s) =
     (if mp3Files files = [] then userTracks s
      else userTracks s @ filter (\<lambda>t. src t \<notin> src ` set (userTracks s)) (newTracks files))"
  by (simp add: handleFileChange_def Let_def appendUnique_eq mp3Files_def)






section \<open>The current track and the selection after an upload\<close>

lemma js_rem_nonneg: "0 \<le> a \<Longrightarrow> 0 < n \<Longrightarrow> js_rem a n = a mod n"
  by (cases "a = 0") (simp_all add: js_rem_def)

lemma js_index_in_range:
  "0 \<le> k \<Longrightarrow> k < int (length xs) \<Longrightarrow> js_index xs k = Some (xs ! nat k)"
  by (simp add: js_index_def)

lemma currentTrack_nonneg:
  assumes "availableTracks rt s \<noteq> []" and "0 \<le> currentIdx s"
  shows "currentTrack rt s
         = Some (availableTracks rt s ! nat (currentIdx s mod int (length (availableTracks rt s))))"
proof -
  let ?n = "int (length (availableTracks rt s))"
  from assms have n: "0 < ?n" by simp
  then have "0 \<le> currentIdx s mod ?n" "currentIdx s mod ?n < ?n" by simp_all
  then show ?thesis
    using assms n by (simp add: currentTrack_def hasValidTracks_def js_rem_nonneg js_index_in_range)
qed

lemma currentTrack_empty:
  "availableTracks rt s = [] \<Longrightarrow> currentTrack rt s = Some fallbackTrack"
  by (simp add: currentTrack_def hasValidTracks_def)

lemma availableTracks_userTracks:
  "availableTracks rt s
     = filter (\<lambda>t. canPlayAudioSrc rt (Some (src t))) defaultTracks
       @ filter (\<lambda>t. canPlayAudioSrc rt (Some (src t))) (userTracks s)"
  by (simp add: availableTracks_def allTracks_def)

text \<open>
  C10. An upload that admits \<open>k > 0\<close> files sets the index to the size of the playable set
  before the upload plus \<open>k - 1\<close>, where \<open>k\<close> counts the admitted files before the filter on
  sources. When no admitted file has the source of a user track and every new source is
  playable, the track selected afterwards is the last track of the batch.
\<close>

theorem upload_selects_last:
  assumes "mp3Files files \<noteq> []"
  shows "currentIdx (handleFileChange rt files s)
           = int (length (availableTracks rt s)) + int (length (mp3Files files)) - 1
    \<and> ((\<forall>f \<in> set (mp3Files files). objectURL f \<notin> src ` set (userTracks s))
        \<and> (\<forall>f \<in> set (mp3Files files). canPlayAudioSrc rt (Some (objectURL f))) \<longrightarrow>
        currentTrack rt (handleFileChange rt files s) = Some (last (newTracks files)))"
proof (intro conjI impI)
  from assms have ne: "files \<noteq> []" by (auto simp add: mp3Files_def)
  show idx: "currentIdx (handleFileChange rt files s)
           = int (length (availableTracks rt s)) + int (length (mp3Files files)) - 1"
    using assms ne by (simp add: handleFileChange_def Let_def length_newTracks)
  assume h: "(\<forall>f \<in> set (mp3Files files). objectURL f \<notin> src ` set (userTracks s))
        \<and> (\<forall>f \<in> set (mp3Files files). canPlayAudioSrc rt (Some (objectURL f)))"
  let ?s' = "handleFileChange rt files s"
  let ?new = "newTracks files"
  let ?old = "availableTracks rt s"
  have nn: "?new \<noteq> []" using assms by (simp add: newTracks_def)
  have fresh: "filter (\<lambda>t. src t \<notin> src ` set (userTracks s)) ?new = ?new"
    using h by (auto simp add: newTracks_def filter_id_conv)
  have play: "filter (\<lambda>t. canPlayAudioSrc rt (Some (src t))) ?new = ?new"
    using h by (auto simp add: newTracks_def filter_id_conv)
  have u: "userTracks ?s' = userTracks s @ ?new"
    using assms by (simp add: userTracks_handleFileChange fresh)
  have av: "availableTracks rt ?s' = ?old @ ?new"
    by (simp add: availableTracks_userTracks u play)
  have k: "0 < length ?new" using nn by simp
  have i: "currentIdx ?s' = int (length ?old + length ?new - 1)"
    using k unfolding idx length_newTracks [symmetric] by linarith
  have "currentTrack rt ?s' = Some ((?old @ ?new) ! (length ?old + length ?new - 1))"
  proof -
    have "availableTracks rt ?s' \<noteq> []" using nn by (simp add: av)
    moreover have "0 \<le> currentIdx ?s'" by (simp add: i)
    ultimately have "currentTrack rt ?s'
         = Some (availableTracks rt ?s' ! nat (currentIdx ?s' mod int (length (availableTracks rt ?s'))))"
      by (rule currentTrack_nonneg)
    moreover have "currentIdx ?s' mod int (length (availableTracks rt ?s'))
                     = int (length ?old + length ?new - 1)"
      unfolding i av using k by (simp add: zmod_int [symmetric] del: of_nat_diff of_nat_add)
    ultimately show ?thesis by (simp add: av)
  qed
  also have "(?old @ ?new) ! (length ?old + length ?new - 1) = ?new ! (length ?new - 1)"
  proof -
    have "length ?old + length ?new - 1 = length ?old + (length ?new - 1)"
      using k by linarith
    then show ?thesis by (simp only: nth_append_length_plus)
  qed
  also have "\<dots> = last ?new"
    using nn by (simp add: last_conv_nth)
  finally show "currentTrack rt ?s' = Some (last ?new)" .
qed


theorem upload_selects_last_witness:
  "currentIdx (handleFileChange supportsAll mixed_files initialState) = 4
   \<and> currentTrack supportsAll (handleFileChange supportsAll mixed_files initialState)
       = Some \<lparr>title = ''Song'', artist = ''You'', album = ''Uploaded'', src = ''blob:3'',
                duration = None, isUploaded = True\<rparr>"
proof -
  have l: "toLowerCase ''Song.MP3'' = ''song.mp3''" by code_simp
  have m: "mp3Files mixed_files = [\<lparr>name = ''Song.MP3'', type = [], objectURL = ''blob:3''\<rparr>]"
    by (simp add: mp3Files_def mixed_files_def truthy_def endsWith_def l)
      (simp add: toLowerCase_def toLowerChar_def)
  have t: "newTracks mixed_files = [\<lparr>title = ''Song'', artist = ''You'', album = ''Uploaded'',
           src = ''blob:3'', duration = None, isUploaded = True\<rparr>]"
    by (simp add: newTracks_def m replace_mp3_suffix_def l endsWith_def)
  have ne: "mp3Files mixed_files \<noteq> []" by (simp add: m)
  have u: "userTracks initialState = []" by (simp add: initialState_def)
  have p: "canPlayAudioSrc supportsAll (Some ''blob:3'')"
    by (simp add: validator_simps supportsAll_def)
  show ?thesis
    using upload_selects_last [OF ne, of supportsAll initialState]
    by (simp add: m t u p length_available_initial)
qed

section \<open>The current track in reachable states\<close>

lemma getNextTrackIdx_nonneg:
  "0 \<le> i \<Longrightarrow> 0 < n \<Longrightarrow> 0 \<le> getNextTrackIdx i d n"
  by (simp add: getNextTrackIdx_def Let_def)

lemma filter_map_same_src:
  assumes "\<And>t. src (f t) = src t"
  shows "filter (\<lambda>t. canPlayAudioSrc rt (Some (src t))) (map f ts)
         = map f (filter (\<lambda>t. canPlayAudioSrc rt (Some (src t))) ts)"
  using assms by (induction ts) simp_all

lemma availableTracks_setFakeDuration:
  "(availableTracks rt (setFakeDurationIfMissing rt d s) = [])
     = (availableTracks rt s = [])"
proof -
  have "(filter (\<lambda>t. canPlayAudioSrc rt (Some (src t))) (map f (userTracks s)) = [])
        = (filter (\<lambda>t. canPlayAudioSrc rt (Some (src t))) (userTracks s) = [])"
    if "\<And>t. src (f t) = src t" for f :: "track \<Rightarrow> track"
    using that by (simp add: filter_map_same_src)
  then show ?thesis
    by (simp add: setFakeDurationIfMissing_def availableTracks_userTracks
        split: option.splits)
qed

lemma currentIdx_setFakeDuration:
  "currentIdx (setFakeDurationIfMissing rt d s) = currentIdx s"
  by (simp add: setFakeDurationIfMissing_def split: option.splits)

lemma handleFileChange_index:
  "currentIdx (handleFileChange rt files s) =
     (if mp3Files files = [] then currentIdx s
      else int (length (availableTracks rt s)) + int (length (mp3Files files)) - 1)"
  by (simp add: handleFileChange_def Let_def length_newTracks mp3Files_def)

lemma availableTracks_handleFileChange:
  "mp3Files files = [] \<Longrightarrow> availableTracks rt (handleFileChange rt files s) = availableTracks rt s"
  by (simp add: availableTracks_userTracks userTracks_handleFileChange)

lemma availableTracks_handlePrev:
  "availableTracks rt (handlePrev rt s) = availableTracks rt s"
  by (simp add: availableTracks_def allTracks_def handlePrev_def)

lemma index_ok_next:
  assumes "index_ok rt s"
  shows "index_ok rt (handleNext rt s)" and "index_ok rt (handlePrev rt s)"
proof -
  have "0 \<le> getNextTrackIdx (currentIdx s) d (int (length (availableTracks rt s)))"
    if "availableTracks rt s \<noteq> []" for d
  proof (rule getNextTrackIdx_nonneg)
    from assms that show "0 \<le> currentIdx s" by (simp add: index_ok_def)
    from that show "0 < int (length (availableTracks rt s))" by simp
  qed
  then show "index_ok rt (handleNext rt s)" and "index_ok rt (handlePrev rt s)"
    unfolding index_ok_def availableTracks_handleNext availableTracks_handlePrev
    by (simp_all add: handleNext_def handlePrev_def)
qed

lemma index_ok_fire:
  assumes "index_ok rt s" and "enabled rt e s"
  shows "index_ok rt (fire rt e s)"
proof (cases e)
  case (TrackClick idx)
  then show ?thesis by (simp add: index_ok_def handleTrackClick_def)
next
  case PlayPause
  with assms show ?thesis
    by (simp add: index_ok_def handlePlayPause_def availableTracks_userTracks)
next
  case Next
  with assms show ?thesis by (simp add: index_ok_next)
next
  case Prev
  with assms show ?thesis by (simp add: index_ok_next)
next
  case (BarChange v)
  with assms show ?thesis
    by (simp add: index_ok_def handleBarChange_def availableTracks_userTracks)
next
  case TrackEnd
  with assms show ?thesis by (simp add: handleTrackEnd_def index_ok_next)
next
  case (FileChange files)
  show ?thesis
  proof (cases "mp3Files files = []")
    case True
    with assms FileChange show ?thesis
      by (simp add: index_ok_def handleFileChange_index availableTracks_handleFileChange)
  next
    case False
    then have "0 < length (mp3Files files)" by simp
    then have "0 \<le> int (length (availableTracks rt s)) + int (length (mp3Files files)) - 1"
      by linarith
    with False FileChange show ?thesis
      by (simp add: index_ok_def handleFileChange_index)
  qed
next
  case (TimeUpdate t)
  with assms show ?thesis
    by (simp add: index_ok_def update_def availableTracks_userTracks)
next
  case AudioError
  with assms show ?thesis
    by (simp add: index_ok_def handleAudioError_def availableTracks_userTracks)
next
  case PlayRejected
  with assms show ?thesis
    by (simp add: index_ok_def playRejected_def availableTracks_userTracks)
next
  case (LoadedMetadata d)
  with assms show ?thesis
    by (simp add: index_ok_def availableTracks_setFakeDuration currentIdx_setFakeDuration)
next
  case (SliderChange idx nv)
  with assms show ?thesis
    by (simp add: index_ok_def slider_onChange_def availableTracks_userTracks)
next
  case EqBandsEffect
  with assms show ?thesis
    by (simp add: index_ok_def eqBands_effect_def availableTracks_userTracks split: option.splits)
next
  case SetupEffect
  with assms show ?thesis
    by (simp add: index_ok_def setup_effect_def availableTracks_userTracks split: option.splits)
next
  case ShowEq
  with assms show ?thesis
    by (simp add: index_ok_def handleShowEq_def availableTracks_userTracks)
next
  case HideEq
  with assms show ?thesis
    by (simp add: index_ok_def handleHideEq_def availableTracks_userTracks)
qed

lemma reachable_index_ok: "reachable rt s \<Longrightarrow> index_ok rt s"
proof (induction rule: reachable.induct)
  case init
  show ?case by (simp add: index_ok_def initialState_def)
next
  case (step s e)
  then show ?case by (simp add: index_ok_fire)
qed

text \<open>
  C1. In every reachable state with a playable set that is not empty, the current track is
  the element of the playable set at the position \<open>currentIdx mod |PlayableSet|\<close>, whatever
  integer the index is in that state; and whenever the playable set is empty, the current
  track is the fallback track. In a reachable state with a playable set the index is never
  negative, so the remainder of JavaScript is the mathematical one.
\<close>

theorem current_track_of_reachable:
  assumes "reachable rt s"
  shows "(availableTracks rt s \<noteq> [] \<longrightarrow>
            currentTrack rt s
              = Some (availableTracks rt s
                        ! nat (currentIdx s mod int (length (availableTracks rt s)))))
       \<and> (availableTracks rt s = [] \<longrightarrow> currentTrack rt s = Some fallbackTrack)"
  using reachable_index_ok [OF assms]
  by (simp add: index_ok_def currentTrack_nonneg currentTrack_empty)


lemma available_initial_supportsNone:
  "availableTracks supportsNone initialState = []"
  by (simp add: availableTracks_def allTracks_def initialState_def defaultTracks_def
      validator_simps supportsNone_def TESTED_MP3_def)

theorem current_track_of_reachable_witness:
  "reachable supportsAll (handlePrev supportsAll initialState)
   \<and> currentIdx (handlePrev supportsAll initialState) = 3
   \<and> currentTrack supportsAll (handlePrev supportsAll initialState) = Some (defaultTracks ! 3)
   \<and> reachable supportsNone (handlePrev supportsNone initialState)
   \<and> currentIdx (handlePrev supportsNone initialState) = - 1
   \<and> currentTrack supportsNone (handlePrev supportsNone initialState) = Some fallbackTrack"
proof -
  have r1: "reachable supportsAll (handlePrev supportsAll initialState)"
    using reachable.step [OF reachable.init, of supportsAll Prev] by simp
  have r2: "reachable supportsNone (handlePrev supportsNone initialState)"
    using reachable.step [OF reachable.init, of supportsNone Prev] by simp
  have a1: "availableTracks supportsAll (handlePrev supportsAll initialState) = defaultTracks"
    by (simp add: availableTracks_handlePrev available_initial_supportsAll)
  have a2: "availableTracks supportsNone (handlePrev supportsNone initialState) = []"
    by (simp add: availableTracks_handlePrev available_initial_supportsNone)
  have i0: "currentIdx initialState = 0" by (simp add: initialState_def)
  have i1: "currentIdx (handlePrev supportsAll initialState) = 3"
    by (simp add: handlePrev_def length_available_initial getNextTrackIdx_def i0)
  have i2: "currentIdx (handlePrev supportsNone initialState) = - 1"
    by (simp add: handlePrev_def available_initial_supportsNone getNextTrackIdx_def i0)
  have d: "defaultTracks \<noteq> []" "length defaultTracks = 4"
    by (simp_all add: defaultTracks_def)
  show ?thesis
    using current_track_of_reachable [OF r1] current_track_of_reachable [OF r2]
    unfolding a1 a2 i1 i2 by (simp add: r1 r2 d)
qed

text \<open>
  Outside the reachable states the remainder keeps the sign of a negative index, and the
  read at a negative position is undefined.
\<close>

lemma currentTrack_negative_index:
  "currentTrack supportsAll (initialState\<lparr>currentIdx := - 1\<rparr>) = None"
  by (simp add: currentTrack_def hasValidTracks_def availableTracks_currentIdx_update
      length_available_initial js_rem_def js_index_def)

text \<open>
  With the values that the sliders deliver, the bands and the gains of the filter nodes
  stay in \<open>[-12, 12]\<close> in every reachable state.
\<close>

lemma list_all_update:
  "list_all P xs \<Longrightarrow> P v \<Longrightarrow> list_all P (xs[i := v])"
  by (auto simp add: list_all_iff dest: set_update_subset_insert [THEN subsetD])

lemma list_all_three:
  "length xs = 3 \<Longrightarrow> list_all P xs \<Longrightarrow> list_all P [xs ! 0, xs ! 1, xs ! 2]"
  by (simp add: list_all_iff)

lemma bands_gains_fire:
  assumes "bands_in_range s \<and> gains_in_range s" and "enabled rt e s"
  shows "bands_in_range (fire rt e s) \<and> gains_in_range (fire rt e s)"
proof (cases e)
  case (SliderChange idx nv)
  with assms show ?thesis
    by (auto simp add: bands_in_range_def gains_in_range_def slider_onChange_def list_all_update
        split: option.splits)
next
  case EqBandsEffect
  with assms show ?thesis
    using list_all_three [of "eqBands s" "\<lambda>g. - 12 \<le> g \<and> g \<le> 12"]
    by (auto simp add: bands_in_range_def gains_in_range_def eqBands_effect_def
        split: option.splits)
next
  case SetupEffect
  with assms show ?thesis
    using list_all_three [of "eqBands s" "\<lambda>g. - 12 \<le> g \<and> g \<le> 12"]
    by (auto simp add: bands_in_range_def gains_in_range_def setup_effect_def
        split: option.splits)
next
  case (FileChange files)
  with assms show ?thesis
    by (simp add: bands_in_range_def gains_in_range_def handleFileChange_def Let_def)
next
  case (LoadedMetadata d)
  with assms show ?thesis
    by (simp add: bands_in_range_def gains_in_range_def setFakeDurationIfMissing_def
        split: option.splits)
qed (use assms in \<open>simp_all add: bands_in_range_def gains_in_range_def handleTrackClick_def
      handlePlayPause_def handleNext_def handlePrev_def handleBarChange_def handleTrackEnd_def
      update_def handleAudioError_def playRejected_def handleShowEq_def handleHideEq_def\<close>)

lemma reachable_gains_in_range:
  "reachable rt s \<Longrightarrow> bands_in_range s \<and> gains_in_range s"
proof (induction rule: reachable.induct)
  case init
  show ?case by (simp add: bands_in_range_def gains_in_range_def initialState_def)
next
  case (step s e)
  from step.IH step.hyps(2) show ?case by (rule bands_gains_fire)
qed

end
